theory Spec2Isabelle
  imports Main "HOL-Library.Word" "HOL-Library.Sublist"
begin

section \<open>Strings of the runtime\<close>

text \<open>
  A JavaScript string is a sequence of UTF-16 code units. All string operations the
  program uses (\<^verbatim>\<open>split\<close>, \<^verbatim>\<open>trim\<close>, \<^verbatim>\<open>replace\<close>, \<^verbatim>\<open>substring\<close>, \<^verbatim>\<open>length\<close>,
  \<^verbatim>\<open>startsWith\<close>, \<^verbatim>\<open>includes\<close>) work on code units, so a string is a list of 16-bit
  words. \<open>js\<close> turns an ASCII literal into such a string.
\<close>

type_synonym codeunit = "16 word"
type_synonym jsstring = "codeunit list"

definition js :: "string \<Rightarrow> jsstring" where
  "js s = map of_char s"

abbreviation NL :: codeunit where "NL \<equiv> 0x0A"
abbreviation DQ :: codeunit where "DQ \<equiv> 0x22"
abbreviation SQ :: codeunit where "SQ \<equiv> 0x27"
abbreviation HASH :: codeunit where "HASH \<equiv> 0x23"

text \<open>
  The code units that \<^verbatim>\<open>String.prototype.trim\<close> removes and that \<^verbatim>\<open>\s\<close> matches in a
  regular expression: the WhiteSpace and LineTerminator productions of ECMAScript
  (tab, LF, VT, FF, CR, space, NBSP, U+1680, U+2000..U+200A, U+2028, U+2029, U+202F,
  U+205F, U+3000, U+FEFF).
\<close>

definition isSpace :: "codeunit \<Rightarrow> bool" where
  "isSpace c \<longleftrightarrow>
     c = 0x09 \<or> c = 0x0A \<or> c = 0x0B \<or> c = 0x0C \<or> c = 0x0D \<or> c = 0x20 \<or> c = 0xA0 \<or>
     c = 0x1680 \<or> (0x2000 \<le> c \<and> c \<le> 0x200A) \<or> c = 0x2028 \<or> c = 0x2029 \<or>
     c = 0x202F \<or> c = 0x205F \<or> c = 0x3000 \<or> c = 0xFEFF"

text \<open>The line terminators: what \<^verbatim>\<open>.\<close> refuses and where \<^verbatim>\<open>^\<close> and \<^verbatim>\<open>$\<close> match under the m flag.\<close>

definition isLineTerminator :: "codeunit \<Rightarrow> bool" where
  "isLineTerminator c \<longleftrightarrow> c = 0x0A \<or> c = 0x0D \<or> c = 0x2028 \<or> c = 0x2029"

text \<open>\<^verbatim>\<open>s.trim()\<close>: white space removed at the start, then at the end.\<close>

definition trim :: "jsstring \<Rightarrow> jsstring" where
  "trim s = rev (dropWhile isSpace (rev (dropWhile isSpace s)))"

text \<open>
  \<^verbatim>\<open>s.split(sep)\<close> for a separator that matches exactly one code unit (the string
  \<^verbatim>\<open>'\n'\<close>, or a character class such as \<^verbatim>\<open>/[,.;]/\<close>): \<open>n\<close> separators give \<open>n + 1\<close>
  pieces, empty pieces included, and the empty string gives one empty piece.
\<close>

fun split :: "(codeunit \<Rightarrow> bool) \<Rightarrow> jsstring \<Rightarrow> jsstring list" where
  "split sep [] = [[]]"
| "split sep (c # cs) =
     (if sep c then [] # split sep cs
      else (case split sep cs of [] \<Rightarrow> [[c]] | w # ws \<Rightarrow> (c # w) # ws))"

text \<open>\<^verbatim>\<open>xs.join(sep)\<close>.\<close>

fun join :: "jsstring \<Rightarrow> jsstring list \<Rightarrow> jsstring" where
  "join sep [] = []"
| "join sep [x] = x"
| "join sep (x # y # ys) = x @ sep @ join sep (y # ys)"

text \<open>\<^verbatim>\<open>xs.slice(start, end)\<close> and \<^verbatim>\<open>xs.slice(start)\<close> for non-negative indices.\<close>

definition slice :: "nat \<Rightarrow> nat \<Rightarrow> 'a list \<Rightarrow> 'a list" where
  "slice start end xs = take (end - start) (drop start xs)"

definition sliceFrom :: "nat \<Rightarrow> 'a list \<Rightarrow> 'a list" where
  "sliceFrom start xs = drop start xs"

text \<open>\<^verbatim>\<open>s.startsWith(p)\<close> is \<^const>\<open>prefix\<close>; \<^verbatim>\<open>s.includes(p)\<close> looks for \<open>p\<close> at every position.\<close>

fun includes_js :: "jsstring \<Rightarrow> jsstring \<Rightarrow> bool" where
  "includes_js [] p = (p = [])"
| "includes_js (c # cs) p = (prefix p (c # cs) \<or> includes_js cs p)"

text \<open>The decimal digits of a number, as a template literal prints an array index.\<close>

fun showNat :: "nat \<Rightarrow> jsstring" where
  "showNat n = (if n < 10 then [0x30 + of_nat n] else showNat (n div 10) @ [0x30 + of_nat (n mod 10)])"

declare showNat.simps [simp del]

text \<open>
  \<^verbatim>\<open>String.prototype.toLowerCase\<close> is the runtime's Unicode case mapping. The program
  only passes it to \<^verbatim>\<open>includes\<close>, so the model takes it as a parameter
  \<open>toLowerCase\<close>; on strings of ASCII code units it is \<open>asciiLower\<close>, which the
  concrete evaluations below use.
\<close>

definition asciiLower :: "jsstring \<Rightarrow> jsstring" where
  "asciiLower s = map (\<lambda>c. if 0x41 \<le> c \<and> c \<le> 0x5A then c + 0x20 else c) s"

section \<open>The segmenter: findHeadingsAndContent\<close>

record AnimationSection =
  heading :: jsstring
  lineIndex :: nat
  content :: jsstring

text \<open>
  \<^verbatim>\<open>line.replace(/^#+\s+/, '')\<close>. The pattern is anchored at the start of the line.
  \<^verbatim>\<open>#+\<close> is greedy and takes the whole leading run of \<^verbatim>\<open>#\<close>; \<^verbatim>\<open>\s+\<close> then needs at least
  one white-space code unit. Giving back some \<^verbatim>\<open>#\<close> does not help, since the code unit
  after a shorter run is \<^verbatim>\<open>#\<close>. So the pattern matches iff the run of \<^verbatim>\<open>#\<close> is not empty
  and white space follows it, and the match is that run with all the white space after it.
  Without a match the line is returned as it is.
\<close>

definition stripHeadingMarker :: "jsstring \<Rightarrow> jsstring" where
  "stripHeadingMarker line =
     (let hashes = takeWhile (\<lambda>c. c = HASH) line;
          rest = dropWhile (\<lambda>c. c = HASH) line
      in case rest of
           [] \<Rightarrow> line
         | c # _ \<Rightarrow> if hashes \<noteq> [] \<and> isSpace c then dropWhile isSpace rest else line)"

text \<open>
  Writing \<^verbatim>\<open>sections[sections.length - 1].content = content\<close> raises a TypeError when
  the array is empty; \<^verbatim>\<open>sections.pop()\<close> on an empty array does nothing.
\<close>

datatype error = TypeError

definition setLastContent :: "AnimationSection list \<Rightarrow> jsstring \<Rightarrow> error + AnimationSection list" where
  "setLastContent ss c =
     (if ss = [] then Inl TypeError else Inr (butlast ss @ [(last ss)\<lparr>content := c\<rparr>]))"

text \<open>The two branches on \<^verbatim>\<open>if (content)\<close>: a non-empty string is truthy.\<close>

definition closeSection :: "jsstring \<Rightarrow> AnimationSection list \<Rightarrow> error + AnimationSection list" where
  "closeSection c ss = (if c \<noteq> [] then setLastContent ss c else Inr (butlast ss))"

record scan =
  sections :: "AnimationSection list"
  currentHeadingIndex :: int

text \<open>The body of the \<^verbatim>\<open>lines.forEach((line, index) => ...)\<close> callback.\<close>

definition visitLine :: "jsstring list \<Rightarrow> scan \<Rightarrow> jsstring \<Rightarrow> nat \<Rightarrow> error + scan" where
  "visitLine lines st line index =
     (if prefix [HASH] line then
        (case (if currentHeadingIndex st \<noteq> - 1
               then closeSection
                      (trim (join [NL] (slice (nat (currentHeadingIndex st + 1)) index lines)))
                      (sections st)
               else Inr (sections st)) of
           Inl e \<Rightarrow> Inl e
         | Inr ss \<Rightarrow>
             Inr \<lparr>sections = ss @ [\<lparr>heading = stripHeadingMarker line, lineIndex = index, content = []\<rparr>],
                  currentHeadingIndex = int index\<rparr>)
      else Inr st)"

fun forEachLine :: "jsstring list \<Rightarrow> scan \<Rightarrow> nat \<Rightarrow> jsstring list \<Rightarrow> error + scan" where
  "forEachLine lines st index [] = Inr st"
| "forEachLine lines st index (line # rest) =
     (case visitLine lines st line index of
        Inl e \<Rightarrow> Inl e
      | Inr st' \<Rightarrow> forEachLine lines st' (Suc index) rest)"

definition findHeadingsAndContent :: "jsstring \<Rightarrow> error + AnimationSection list" where
  "findHeadingsAndContent markdown =
     (let lines = split (\<lambda>c. c = NL) markdown in
      case forEachLine lines \<lparr>sections = [], currentHeadingIndex = - 1\<rparr> 0 lines of
        Inl e \<Rightarrow> Inl e
      | Inr st \<Rightarrow>
          if currentHeadingIndex st \<noteq> - 1 \<and> currentHeadingIndex st < int (length lines) - 1
          then closeSection
                 (trim (join [NL] (sliceFrom (nat (currentHeadingIndex st + 1)) lines)))
                 (sections st)
          else Inr (sections st))"

section \<open>The classifier and code generator: generateMermaidCode\<close>

text \<open>
  \<^verbatim>\<open>text.replace(/"/g, "'").replace(/[[\]]/g, '').replace(/[()]/g, '').trim()\<close>: every
  double quote becomes a single quote, every square bracket and every parenthesis is
  removed, and the result is trimmed.
\<close>

definition sanitizeText :: "jsstring \<Rightarrow> jsstring" where
  "sanitizeText text =
     trim (filter (\<lambda>c. c \<noteq> 0x28 \<and> c \<noteq> 0x29)
            (filter (\<lambda>c. c \<noteq> 0x5B \<and> c \<noteq> 0x5D)
              (map (\<lambda>c. if c = DQ then SQ else c) text)))"

text \<open>\<^verbatim>\<open>keywords.some(keyword => text.toLowerCase().includes(keyword.toLowerCase()))\<close>.\<close>

definition containsKeywords :: "(jsstring \<Rightarrow> jsstring) \<Rightarrow> jsstring \<Rightarrow> jsstring list \<Rightarrow> bool" where
  "containsKeywords toLowerCase text keywords =
     list_ex (\<lambda>keyword. includes_js (toLowerCase text) (toLowerCase keyword)) keywords"

definition partnershipKeywords :: "jsstring list" where
  "partnershipKeywords = [js ''agreement'', js ''partnership'', js ''trade'', js ''collaboration'']"

definition marketKeywords :: "jsstring list" where
  "marketKeywords = [js ''market'', js ''growth'', js ''opportunity'', js ''expansion'']"

definition opportunityKeywords :: "jsstring list" where
  "opportunityKeywords = [js ''growth'', js ''opportunity'', js ''potential'', js ''market'']"

definition competitiveKeywords :: "jsstring list" where
  "competitiveKeywords =
     [js ''competitive'', js ''versus'', js ''vs'', js ''compared'', js ''competition'']"

definition sequenceKeywords :: "jsstring list" where
  "sequenceKeywords =
     [js ''step'', js ''process'', js ''timeline'', js ''sequence'', js ''first'', js ''then'',
      js ''finally'']"

text \<open>The separators of \<^verbatim>\<open>/[,.;]/\<close> and of \<^verbatim>\<open>/[.!?]/\<close>.\<close>

definition isEntitySeparator :: "codeunit \<Rightarrow> bool" where
  "isEntitySeparator c \<longleftrightarrow> c = 0x2C \<or> c = 0x2E \<or> c = 0x3B"

definition isSentenceEnd :: "codeunit \<Rightarrow> bool" where
  "isSentenceEnd c \<longleftrightarrow> c = 0x2E \<or> c = 0x21 \<or> c = 0x3F"

text \<open>\<^verbatim>\<open>s => s.trim().length > 0\<close>, the filter of every branch.\<close>

definition nonBlank :: "jsstring \<Rightarrow> bool" where
  "nonBlank s \<longleftrightarrow> length (trim s) > 0"

text \<open>Branch 1: \<^verbatim>\<open>graph LR\<close>, the heading as root and up to four entities.\<close>

definition partnershipEntities :: "jsstring \<Rightarrow> jsstring list" where
  "partnershipEntities content =
     map (\<lambda>s. sanitizeText (trim s)) (take 4 (filter nonBlank (split isEntitySeparator content)))"
  for content

definition partnershipDiagram :: "jsstring \<Rightarrow> jsstring \<Rightarrow> jsstring" where
  "partnershipDiagram content heading =
     js ''graph LR'' @ [NL]
     @ js ''    A(('' @ [DQ] @ sanitizeText heading @ [DQ] @ js ''))'' @ [NL]
     @ concat (map (\<lambda>(index, entity).
          js ''    A --> B'' @ showNat index @ js ''['' @ [DQ] @ entity @ [DQ] @ js '']'' @ [NL]
          @ js ''    style B'' @ showNat index @ js '' fill:#e1f5fe,stroke:#01579b'' @ [NL])
        (enumerate 0 (partnershipEntities content)))
     @ js ''    style A fill:#0277bd,stroke:#01579b,color:#fff'' @ [NL]"
  for content heading

text \<open>
  Branch 2: \<^verbatim>\<open>graph TD\<close>, the heading as root and up to four sentences that contain
  one of \<^verbatim>\<open>growth, opportunity, potential, market\<close>.
\<close>

definition marketOpportunities :: "(jsstring \<Rightarrow> jsstring) \<Rightarrow> jsstring \<Rightarrow> jsstring list" where
  "marketOpportunities toLowerCase content =
     map (\<lambda>s. sanitizeText (trim s))
       (take 4 (filter (\<lambda>s. nonBlank s \<and> containsKeywords toLowerCase s opportunityKeywords)
                  (split isSentenceEnd content)))"
  for content

definition marketDiagram :: "(jsstring \<Rightarrow> jsstring) \<Rightarrow> jsstring \<Rightarrow> jsstring \<Rightarrow> jsstring" where
  "marketDiagram toLowerCase content heading =
     js ''graph TD'' @ [NL]
     @ js ''    M(('' @ [DQ] @ sanitizeText heading @ [DQ] @ js ''))'' @ [NL]
     @ concat (map (\<lambda>(index, opp).
          js ''    M --> O'' @ showNat index @ js ''['' @ [DQ] @ opp @ [DQ] @ js '']'' @ [NL]
          @ js ''    style O'' @ showNat index @ js '' fill:#f3e5f5,stroke:#4a148c'' @ [NL])
        (enumerate 0 (marketOpportunities toLowerCase content)))
     @ js ''    style M fill:#7b1fa2,stroke:#4a148c,color:#fff'' @ [NL]"
  for content heading

text \<open>Branch 3: \<^verbatim>\<open>graph TB\<close>, up to three sentences chained inside a sub-graph.\<close>

definition comparisonAspects :: "jsstring \<Rightarrow> jsstring list" where
  "comparisonAspects content =
     map (\<lambda>s. sanitizeText (trim s)) (take 3 (filter nonBlank (split isSentenceEnd content)))"
  for content

definition comparisonDiagram :: "jsstring \<Rightarrow> jsstring" where
  "comparisonDiagram content =
     (let aspects = comparisonAspects content in
      js ''graph TB'' @ [NL]
      @ js ''    subgraph Comparison'' @ [NL]
      @ concat (map (\<lambda>(index, aspect).
           js ''    A'' @ showNat index @ js ''['' @ [DQ] @ aspect @ [DQ] @ js '']'' @ [NL])
         (enumerate 0 aspects))
      @ concat (map (\<lambda>i. js ''    A'' @ showNat i @ js '' --> A'' @ showNat (i + 1) @ [NL])
         [0 ..< length aspects - 1])
      @ js ''    end'' @ [NL]
      @ js ''    style Comparison fill:#f5f5f5,stroke:#333,stroke-width:2px'' @ [NL]
      @ concat (map (\<lambda>(index, _).
           js ''    style A'' @ showNat index @ js '' fill:#e8eaf6,stroke:#1a237e'' @ [NL])
         (enumerate 0 aspects)))"
  for content

text \<open>Branch 4: \<^verbatim>\<open>graph TD\<close>, up to five sentences as a chain.\<close>

definition sequenceSteps :: "jsstring \<Rightarrow> jsstring list" where
  "sequenceSteps content =
     map (\<lambda>s. sanitizeText (trim s)) (take 5 (filter nonBlank (split isSentenceEnd content)))"
  for content

definition sequenceDiagram :: "jsstring \<Rightarrow> jsstring" where
  "sequenceDiagram content =
     (let steps = sequenceSteps content in
      js ''graph TD'' @ [NL]
      @ concat (map (\<lambda>(index, step).
           js ''    S'' @ showNat index @ js ''['' @ [DQ] @ step @ [DQ] @ js '']'' @ [NL]
           @ (if index > 0
              then js ''    S'' @ showNat (index - 1) @ js '' --> S'' @ showNat index @ [NL]
              else []))
         (enumerate 0 steps))
      @ concat (map (\<lambda>(index, _).
           js ''    style S'' @ showNat index @ js '' fill:#fff3e0,stroke:#e65100'' @ [NL])
         (enumerate 0 steps)))"
  for content

text \<open>
  The default: a mind map of up to five sentences. A leaf is
  \<^verbatim>\<open>sanitizeText(point.substring(0, 50) + (point.length > 50 ? '...' : ''))\<close>; the
  sentence is cut before it is sanitized, and it is not trimmed before it is cut.
\<close>

definition keyPoints :: "jsstring \<Rightarrow> jsstring list" where
  "keyPoints content = take 5 (filter nonBlank (split isSentenceEnd content))"
  for content

definition nodeText :: "jsstring \<Rightarrow> jsstring" where
  "nodeText point = sanitizeText (take 50 point @ (if length point > 50 then js ''...'' else []))"

definition mindmapDiagram :: "jsstring list \<Rightarrow> jsstring \<Rightarrow> jsstring" where
  "mindmapDiagram points heading =
     js ''mindmap'' @ [NL]
     @ js ''  root(('' @ sanitizeText heading @ js ''))'' @ [NL]
     @ concat (map (\<lambda>point. js ''    '' @ nodeText point @ [NL]) points)"
  for heading

definition placeholderDiagram :: jsstring where
  "placeholderDiagram = js ''graph TD'' @ [NL] @ js ''    A['' @ [DQ] @ js ''No content to visualize'' @ [DQ] @ js '']''"

definition generateMermaidCode :: "(jsstring \<Rightarrow> jsstring) \<Rightarrow> jsstring \<Rightarrow> jsstring \<Rightarrow> jsstring" where
  "generateMermaidCode toLowerCase content heading =
     (if containsKeywords toLowerCase content partnershipKeywords then
        partnershipDiagram content heading
      else if containsKeywords toLowerCase content marketKeywords then
        marketDiagram toLowerCase content heading
      else if containsKeywords toLowerCase content competitiveKeywords then
        comparisonDiagram content
      else if containsKeywords toLowerCase content sequenceKeywords then
        sequenceDiagram content
      else if length (keyPoints content) > 0 then
        mindmapDiagram (keyPoints content) heading
      else placeholderDiagram)"
  for content heading

section \<open>Title inference: generateTitleFromContent\<close>

text \<open>
  \<^verbatim>\<open>content.match(/^#\s+(.+)$/m)\<close>, tried at one position where \<^verbatim>\<open>^\<close> holds; the
  argument is the input from that position on. After the \<^verbatim>\<open>#\<close>, the greedy \<^verbatim>\<open>\s+\<close>
  first takes the whole run of white space and then gives code units back one at a time;
  \<open>matchSpaces r k\<close> tries \<open>k\<close>, then \<open>k - 1\<close>, ... down to one white-space code unit.
  The greedy \<^verbatim>\<open>(.+)\<close> takes every code unit up to the next line terminator and needs
  at least one; what follows it is a line terminator or the end of the input, which is
  where \<^verbatim>\<open>$\<close> holds under the m flag. The result is the text of group 1.
\<close>

fun matchSpaces :: "jsstring \<Rightarrow> nat \<Rightarrow> jsstring option" where
  "matchSpaces r 0 = None"
| "matchSpaces r (Suc k) =
     (let group1 = takeWhile (\<lambda>c. \<not> isLineTerminator c) (drop (Suc k) r)
      in if group1 \<noteq> [] then Some group1 else matchSpaces r k)"

definition matchHeadingAt :: "jsstring \<Rightarrow> jsstring option" where
  "matchHeadingAt s =
     (case s of
        [] \<Rightarrow> None
      | c # r \<Rightarrow> if c = HASH then matchSpaces r (length (takeWhile isSpace r)) else None)"

text \<open>
  The search for the leftmost match: under the m flag \<^verbatim>\<open>^\<close> holds at the start of the
  input and after every line terminator. \<open>atLineStart\<close> says whether it holds here.
\<close>

fun searchHeading :: "bool \<Rightarrow> jsstring \<Rightarrow> jsstring option" where
  "searchHeading atLineStart [] = None"
| "searchHeading atLineStart (c # cs) =
     (case (if atLineStart then matchHeadingAt (c # cs) else None) of
        Some group1 \<Rightarrow> Some group1
      | None \<Rightarrow> searchHeading (isLineTerminator c) cs)"

text \<open>
  \<^verbatim>\<open>content.split('\n')[0].trim()\<close> raises a TypeError if the array were empty, so the
  result is a sum.
\<close>

definition generateTitleFromContent :: "jsstring \<Rightarrow> error + jsstring" where
  "generateTitleFromContent content =
     (case searchHeading True content of
        Some group1 \<Rightarrow> Inr (trim group1)
      | None \<Rightarrow>
          (case split (\<lambda>c. c = NL) content of
             [] \<Rightarrow> Inl TypeError
           | l # _ \<Rightarrow>
               (let firstLine = trim l in
                if length firstLine > 0 then
                  Inr (if length firstLine > 50 then take 47 firstLine @ js ''...'' else firstLine)
                else Inr (js ''Untitled Report''))))"
  for content

section \<open>Persistence: saveReport\<close>

text \<open>
  A plain object is a map from property names to values. The object literal
  \<^verbatim>\<open>{...report, createdAt: new Date(), updatedAt: new Date()}\<close> copies the properties
  of \<open>report\<close> and then sets the two named ones; \<open>now1\<close> and \<open>now2\<close> are what the two
  evaluations of \<^verbatim>\<open>new Date()\<close> read from the clock, in milliseconds. The document
  store is the external Firestore; \<open>addDoc\<close> stands for its operation of that name,
  which adds the object as a new document of the collection.
\<close>

datatype jsvalue = Str jsstring | Date int | Sections "AnimationSection list"

type_synonym jsobject = "string \<rightharpoonup> jsvalue"

type_synonym firestore = "string \<Rightarrow> jsobject list"

definition addDoc :: "string \<Rightarrow> jsobject \<Rightarrow> firestore \<Rightarrow> firestore" where
  "addDoc collectionName data db = db(collectionName := db collectionName @ [data])"

definition reportDocument :: "int \<Rightarrow> int \<Rightarrow> jsobject \<Rightarrow> jsobject" where
  "reportDocument now1 now2 report = report(''createdAt'' \<mapsto> Date now1, ''updatedAt'' \<mapsto> Date now2)"

definition saveReport :: "int \<Rightarrow> int \<Rightarrow> jsobject \<Rightarrow> firestore \<Rightarrow> firestore" where
  "saveReport now1 now2 report db = addDoc ''reports'' (reportDocument now1 now2 report) db"

section \<open>Invariants of the scan\<close>

text \<open>
  What holds of the \<open>sections\<close> array while \<open>findHeadingsAndContent\<close> runs, before the
  line with index \<open>i\<close> is visited. \<open>anchored\<close>: the line numbers increase strictly,
  each is the number of a visited line that starts with \<^verbatim>\<open>#\<close>, and the heading is what
  the replacement makes of that line. \<open>filled\<close>: the content is not empty and trimmed.
  \<open>scanInv\<close>: every section but the open one is filled, and the open one (the last)
  is the heading at \<open>currentHeadingIndex\<close>, with its content still empty.
\<close>

definition anchored :: "jsstring list \<Rightarrow> nat \<Rightarrow> AnimationSection list \<Rightarrow> bool" where
  "anchored lines i ss \<longleftrightarrow>
     sorted_wrt (<) (map lineIndex ss) \<and>
     (\<forall>s \<in> set ss.
        lineIndex s < i \<and> prefix [HASH] (lines ! lineIndex s) \<and>
        heading s = stripHeadingMarker (lines ! lineIndex s))"

definition filled :: "AnimationSection list \<Rightarrow> bool" where
  "filled ss \<longleftrightarrow> (\<forall>s \<in> set ss. content s \<noteq> [] \<and> trim (content s) = content s)"

definition scanInv :: "jsstring list \<Rightarrow> nat \<Rightarrow> scan \<Rightarrow> bool" where
  "scanInv lines i st \<longleftrightarrow>
     anchored lines i (sections st) \<and> filled (butlast (sections st)) \<and>
     (if currentHeadingIndex st = - 1 then sections st = []
      else sections st \<noteq> [] \<and> currentHeadingIndex st = int (lineIndex (last (sections st))) \<and>
           content (last (sections st)) = [])"

section \<open>Properties\<close>

subsection \<open>Strings\<close>

lemma split_not_Nil: "split sep s \<noteq> []"
  by (induction s) (auto split: list.splits)

lemma rev_dropWhile_rev_prefix: "prefix (rev (dropWhile P (rev xs))) xs"
proof -
  have "rev xs = takeWhile P (rev xs) @ dropWhile P (rev xs)" by simp
  then have "xs = rev (dropWhile P (rev xs)) @ rev (takeWhile P (rev xs))"
    by (metis rev_append rev_rev_ident)
  then show ?thesis by (metis prefixI)
qed

lemma trim_hd: "trim s \<noteq> [] \<Longrightarrow> \<not> isSpace (hd (trim s))"
proof -
  assume ne: "trim s \<noteq> []"
  let ?d = "dropWhile isSpace s"
  have p: "prefix (trim s) ?d"
    unfolding trim_def by (rule rev_dropWhile_rev_prefix)
  then have "?d \<noteq> []" using ne by (cases "dropWhile isSpace s") simp_all
  then have "\<not> isSpace (hd ?d)" by (rule hd_dropWhile)
  moreover have "hd (trim s) = hd ?d"
    using p ne by (auto simp: prefix_def)
  ultimately show ?thesis by simp
qed

lemma trim_last: "trim s \<noteq> [] \<Longrightarrow> \<not> isSpace (last (trim s))"
proof -
  assume ne: "trim s \<noteq> []"
  let ?e = "dropWhile isSpace (rev (dropWhile isSpace s))"
  have "?e \<noteq> []" using ne by (simp add: trim_def)
  then have "\<not> isSpace (hd ?e)" by (rule hd_dropWhile)
  moreover have "last (trim s) = hd ?e"
    using \<open>?e \<noteq> []\<close> by (simp add: trim_def last_rev)
  ultimately show ?thesis by simp
qed

lemma trim_fixed: "s = [] \<or> (\<not> isSpace (hd s) \<and> \<not> isSpace (last s)) \<Longrightarrow> trim s = s"
proof (cases "s = []")
  case True
  then show ?thesis by (simp add: trim_def)
next
  case False
  assume "s = [] \<or> (\<not> isSpace (hd s) \<and> \<not> isSpace (last s))"
  with False have h: "\<not> isSpace (hd s)" and l: "\<not> isSpace (last s)" by auto
  have 1: "dropWhile isSpace s = s"
    using h by (simp add: dropWhile_eq_self_iff)
  have "hd (rev s) = last s" using False by (simp add: hd_rev)
  then have 2: "dropWhile isSpace (rev s) = rev s"
    using l by (simp add: dropWhile_eq_self_iff)
  show ?thesis by (simp add: trim_def 1 2)
qed

lemma trim_idem: "trim (trim s) = trim s"
  by (rule trim_fixed) (use trim_hd trim_last in blast)

lemma set_trim: "set (trim s) \<subseteq> set s"
proof -
  have "set (trim s) \<subseteq> set (dropWhile isSpace s)"
    unfolding trim_def using set_mono_prefix [OF rev_dropWhile_rev_prefix] .
  also have "\<dots> \<subseteq> set s" by (auto dest: set_dropWhileD)
  finally show ?thesis .
qed

subsection \<open>Sanitization\<close>

text \<open>
  Claim C6: the sanitization helper is idempotent. For every string \<open>s\<close>, sanitizing
  the sanitized text gives the sanitized text again: no double quote, bracket or
  parenthesis is left to replace or strip, and the text is already trimmed.
\<close>

theorem sanitizeText_idempotent: "sanitizeText (sanitizeText s) = sanitizeText s"
proof -
  let ?t = "sanitizeText s"
  have clean: "\<forall>c \<in> set ?t. c \<noteq> DQ \<and> c \<noteq> 0x5B \<and> c \<noteq> 0x5D \<and> c \<noteq> 0x28 \<and> c \<noteq> 0x29"
    using set_trim unfolding sanitizeText_def by fastforce
  have m: "map (\<lambda>c. if c = DQ then SQ else c) ?t = ?t"
    using clean by (simp add: map_idI)
  have f1: "filter (\<lambda>c. c \<noteq> 0x5B \<and> c \<noteq> 0x5D) ?t = ?t"
    using clean by (simp add: filter_id_conv)
  have f2: "filter (\<lambda>c. c \<noteq> 0x28 \<and> c \<noteq> 0x29) ?t = ?t"
    using clean by (simp add: filter_id_conv)
  have "sanitizeText ?t = trim ?t"
    by (subst sanitizeText_def) (simp only: m f1 f2)
  also have "\<dots> = ?t"
    by (simp add: sanitizeText_def trim_idem)
  finally show ?thesis .
qed

theorem sanitizeText_idempotent_witness:
  "sanitizeText (sanitizeText ([0x20, DQ] @ js ''a [b] (c)'' @ [DQ, 0x20])) = [SQ] @ js ''a b c'' @ [SQ]"
proof -
  have "sanitizeText ([0x20, DQ] @ js ''a [b] (c)'' @ [DQ, 0x20]) = [SQ] @ js ''a b c'' @ [SQ]"
    by code_simp
  then show ?thesis
    using sanitizeText_idempotent [of "[0x20, DQ] @ js ''a [b] (c)'' @ [DQ, 0x20]"] by simp
qed

subsection \<open>The segmenter\<close>

lemma anchored_Nil: "anchored lines i []"
  by (simp add: anchored_def)

lemma anchored_mono: "anchored lines i ss \<Longrightarrow> i \<le> j \<Longrightarrow> anchored lines j ss"
  by (fastforce simp: anchored_def)

lemma anchored_butlast: "anchored lines i ss \<Longrightarrow> anchored lines i (butlast ss)"
proof (cases "ss = []")
  case True
  then show ?thesis by (simp add: anchored_def)
next
  case False
  assume a: "anchored lines i ss"
  from False have "ss = butlast ss @ [last ss]" by simp
  then have "sorted_wrt (<) (map lineIndex (butlast ss @ [last ss]))"
    using a by (simp add: anchored_def)
  then have "sorted_wrt (<) (map lineIndex (butlast ss))"
    by (simp add: sorted_wrt_append)
  moreover have "set (butlast ss) \<subseteq> set ss" by (auto dest: in_set_butlastD)
  ultimately show ?thesis using a by (auto simp: anchored_def)
qed

lemma anchored_setLast:
  assumes "anchored lines i ss" and "ss \<noteq> []"
  shows "anchored lines i (butlast ss @ [(last ss)\<lparr>content := c\<rparr>])"
proof -
  from assms(2) have eq: "ss = butlast ss @ [last ss]" by simp
  have "map lineIndex (butlast ss @ [(last ss)\<lparr>content := c\<rparr>]) = map lineIndex (butlast ss @ [last ss])"
    by simp
  then have s: "sorted_wrt (<) (map lineIndex (butlast ss @ [(last ss)\<lparr>content := c\<rparr>]))"
    using assms(1) eq by (simp add: anchored_def)
  have l: "last ss \<in> set ss" using assms(2) by simp
  have "\<forall>s \<in> set (butlast ss @ [(last ss)\<lparr>content := c\<rparr>]).
          lineIndex s < i \<and> prefix [HASH] (lines ! lineIndex s) \<and>
          heading s = stripHeadingMarker (lines ! lineIndex s)"
    using assms(1) l by (auto simp: anchored_def dest: in_set_butlastD)
  with s show ?thesis by (simp only: anchored_def)
qed

lemma anchored_snoc:
  assumes "anchored lines i ss" and "prefix [HASH] (lines ! i)"
  shows "anchored lines (Suc i)
           (ss @ [\<lparr>heading = stripHeadingMarker (lines ! i), lineIndex = i, content = []\<rparr>])"
  using assms by (auto simp: anchored_def sorted_wrt_append less_Suc_eq)

lemma filled_setLast:
  assumes "filled (butlast ss)" and "c \<noteq> []" and "trim c = c"
  shows "filled (butlast ss @ [(last ss)\<lparr>content := c\<rparr>])"
  using assms by (auto simp: filled_def)

lemma closeSection_inv:
  assumes "anchored lines i ss" and "filled (butlast ss)" and "ss \<noteq> []"
  shows "\<exists>ss'. closeSection (trim t) ss = Inr ss' \<and> anchored lines i ss' \<and> filled ss'"
proof (cases "trim t = []")
  case True
  then show ?thesis
    using assms by (simp add: closeSection_def anchored_butlast)
next
  case False
  then show ?thesis
    using assms
    by (simp add: closeSection_def setLastContent_def anchored_setLast filled_setLast trim_idem)
qed

lemma visitLine_inv:
  assumes inv: "scanInv lines i st"
  shows "\<exists>st'. visitLine lines st (lines ! i) i = Inr st' \<and> scanInv lines (Suc i) st'"
proof (cases "prefix [HASH] (lines ! i)")
  case False
  have "anchored lines (Suc i) (sections st)"
    using inv by (auto simp: scanInv_def intro: anchored_mono)
  then have "scanInv lines (Suc i) st"
    using inv by (simp add: scanInv_def)
  then show ?thesis using False by (simp add: visitLine_def)
next
  case True
  let ?new = "\<lparr>heading = stripHeadingMarker (lines ! i), lineIndex = i, content = []\<rparr>"
  have "\<exists>ss. (if currentHeadingIndex st \<noteq> - 1
               then closeSection
                      (trim (join [NL] (slice (nat (currentHeadingIndex st + 1)) i lines)))
                      (sections st)
               else Inr (sections st)) = Inr ss \<and> anchored lines i ss \<and> filled ss"
  proof (cases "currentHeadingIndex st = - 1")
    case True
    then show ?thesis using inv by (simp add: scanInv_def anchored_Nil filled_def)
  next
    case False
    then have "anchored lines i (sections st)" "filled (butlast (sections st))" "sections st \<noteq> []"
      using inv by (simp_all add: scanInv_def)
    from closeSection_inv [OF this] False show ?thesis by simp
  qed
  then obtain ss where
    ss: "(if currentHeadingIndex st \<noteq> - 1
               then closeSection
                      (trim (join [NL] (slice (nat (currentHeadingIndex st + 1)) i lines)))
                      (sections st)
               else Inr (sections st)) = Inr ss" and a: "anchored lines i ss" and f: "filled ss"
    by blast
  let ?st' = "\<lparr>sections = ss @ [?new], currentHeadingIndex = int i\<rparr>"
  have v: "visitLine lines st (lines ! i) i = Inr ?st'"
    using True ss by (simp add: visitLine_def)
  have "scanInv lines (Suc i) ?st'"
    using anchored_snoc [OF a True] f by (simp add: scanInv_def)
  with v show ?thesis by blast
qed

lemma forEachLine_inv:
  "scanInv lines i st \<Longrightarrow> i \<le> length lines \<Longrightarrow> rest = drop i lines \<Longrightarrow>
     \<exists>st'. forEachLine lines st i rest = Inr st' \<and> scanInv lines (length lines) st'"
proof (induction rest arbitrary: i st)
  case Nil
  then have "i = length lines" by simp
  with Nil show ?case by simp
next
  case (Cons line rest)
  from Cons.prems(3) have lt: "i < length lines"
    by (metis drop_all list.distinct(1) not_le)
  then have "lines ! i # drop (Suc i) lines = drop i lines"
    by (rule Cons_nth_drop_Suc)
  with Cons.prems(3) have "line # rest = lines ! i # drop (Suc i) lines"
    by simp
  then have line: "line = lines ! i" and rest: "rest = drop (Suc i) lines"
    by simp_all
  from visitLine_inv [OF Cons.prems(1)] obtain st' where
    v: "visitLine lines st (lines ! i) i = Inr st'" and inv': "scanInv lines (Suc i) st'"
    by blast
  from Cons.IH [OF inv' _ rest] lt obtain st'' where
    "forEachLine lines st' (Suc i) rest = Inr st''" "scanInv lines (length lines) st''"
    by auto
  then show ?case using v line by simp
qed

lemma scan_all:
  "\<exists>st. forEachLine lines \<lparr>sections = [], currentHeadingIndex = - 1\<rparr> 0 lines = Inr st \<and>
        scanInv lines (length lines) st"
  by (rule forEachLine_inv) (simp_all add: scanInv_def anchored_Nil filled_def)

lemma findHeadingsAndContent_anchored:
  "\<exists>ss. findHeadingsAndContent markdown = Inr ss \<and>
        anchored (split (\<lambda>c. c = NL) markdown) (length (split (\<lambda>c. c = NL) markdown)) ss"
proof -
  let ?lines = "split (\<lambda>c. c = NL) markdown"
  from scan_all [of ?lines] obtain st where
    f: "forEachLine ?lines \<lparr>sections = [], currentHeadingIndex = - 1\<rparr> 0 ?lines = Inr st" and
    inv: "scanInv ?lines (length ?lines) st"
    by blast
  show ?thesis
  proof (cases "currentHeadingIndex st \<noteq> - 1 \<and> currentHeadingIndex st < int (length ?lines) - 1")
    case True
    then have "anchored ?lines (length ?lines) (sections st)" "filled (butlast (sections st))"
      "sections st \<noteq> []"
      using inv by (simp_all add: scanInv_def)
    from closeSection_inv
           [OF this, of "join [NL] (sliceFrom (nat (currentHeadingIndex st + 1)) ?lines)"]
    obtain ss where
      "closeSection (trim (join [NL] (sliceFrom (nat (currentHeadingIndex st + 1)) ?lines)))
         (sections st) = Inr ss" and "anchored ?lines (length ?lines) ss"
      by blast
    with True f show ?thesis
      by (simp add: findHeadingsAndContent_def Let_def)
  next
    case False
    then show ?thesis using f inv
      by (auto simp add: findHeadingsAndContent_def Let_def scanInv_def)
  qed
qed


lemma findHeadingsAndContent_filled:
  assumes "\<not> prefix [HASH] (last (split (\<lambda>c. c = NL) markdown))"
  shows "\<exists>ss. findHeadingsAndContent markdown = Inr ss \<and> filled ss"
proof -
  let ?lines = "split (\<lambda>c. c = NL) markdown"
  from scan_all [of ?lines] obtain st where
    f: "forEachLine ?lines \<lparr>sections = [], currentHeadingIndex = - 1\<rparr> 0 ?lines = Inr st" and
    inv: "scanInv ?lines (length ?lines) st"
    by blast
  show ?thesis
  proof (cases "currentHeadingIndex st = - 1")
    case True
    then have "sections st = []" using inv by (simp add: scanInv_def)
    with True f show ?thesis
      by (simp add: findHeadingsAndContent_def Let_def filled_def)
  next
    case False
    then have a: "anchored ?lines (length ?lines) (sections st)"
      and b: "filled (butlast (sections st))" and ne: "sections st \<noteq> []"
      and cur: "currentHeadingIndex st = int (lineIndex (last (sections st)))"
      using inv by (simp_all add: scanInv_def)
    let ?k = "lineIndex (last (sections st))"
    have "last (sections st) \<in> set (sections st)" using ne by simp
    with a have k: "?k < length ?lines" and h: "prefix [HASH] (?lines ! ?k)"
      by (auto simp: anchored_def)
    have "?lines ! (length ?lines - 1) = last ?lines"
      using split_not_Nil by (simp add: last_conv_nth)
    with h assms have "?k \<noteq> length ?lines - 1" by auto
    with k cur have guard: "currentHeadingIndex st < int (length ?lines) - 1" by simp
    from closeSection_inv
           [OF a b ne, of "join [NL] (sliceFrom (nat (currentHeadingIndex st + 1)) ?lines)"]
    obtain ss where
      "closeSection (trim (join [NL] (sliceFrom (nat (currentHeadingIndex st + 1)) ?lines)))
         (sections st) = Inr ss" and "filled ss"
      by blast
    with False guard f show ?thesis
      by (simp add: findHeadingsAndContent_def Let_def)
  qed
qed

lemma stripHeadingMarker_heading_line:
  assumes "prefix [HASH] line"
  shows "stripHeadingMarker line =
           (let rest = dropWhile (\<lambda>c. c = HASH) line
            in if rest \<noteq> [] \<and> isSpace (hd rest) then dropWhile isSpace rest else line)"
proof -
  from assms obtain r where "line = HASH # r" by (auto simp: prefix_def)
  then have ne: "takeWhile (\<lambda>c. c = HASH) line \<noteq> []" by simp
  show ?thesis
  proof (cases "dropWhile (\<lambda>c. c = HASH) line")
    case Nil
    show ?thesis unfolding stripHeadingMarker_def Let_def Nil by simp
  next
    case (Cons c r)
    show ?thesis unfolding stripHeadingMarker_def Let_def Cons using ne by simp
  qed
qed

text \<open>
  Claim C1: every section returned by the segmenter has non-empty trimmed content; a
  heading with no text after it through the end of the document produces no section.
  The code does not do this when the heading is the last line: the check
  \<^verbatim>\<open>currentHeadingIndex < lines.length - 1\<close> skips the closing of the last section, and
  the section stays in the result with the empty content it was opened with. (For a
  document whose last line is no heading the property holds:
  \<open>findHeadingsAndContent_filled\<close>.)
\<close>

theorem empty_last_section_kept:
  "findHeadingsAndContent (js ''# A'') = Inr [\<lparr>heading = js ''A'', lineIndex = 0, content = []\<rparr>]"
  by code_simp

text \<open>
  Claim C7: for every Markdown string the segmenter returns (it raises nothing), and
  the \<open>lineIndex\<close> values of the sections, in output order, increase strictly.
\<close>

theorem lineIndex_strictly_increasing:
  "\<exists>ss. findHeadingsAndContent markdown = Inr ss \<and> sorted_wrt (<) (map lineIndex ss)"
  using findHeadingsAndContent_anchored [of markdown] by (auto simp: anchored_def)

theorem lineIndex_strictly_increasing_witness:
  "\<exists>ss. findHeadingsAndContent (js ''# A\<newline>hello\<newline># B\<newline>world\<newline>'') = Inr ss \<and>
      map lineIndex ss = [0, 2] \<and> sorted_wrt (<) (map lineIndex ss)"
proof -
  have "findHeadingsAndContent (js ''# A\<newline>hello\<newline># B\<newline>world\<newline>'') =
          Inr [\<lparr>heading = js ''A'', lineIndex = 0, content = js ''hello''\<rparr>,
               \<lparr>heading = js ''B'', lineIndex = 2, content = js ''world''\<rparr>]"
    by code_simp
  then show ?thesis
    using lineIndex_strictly_increasing [of "js ''# A\<newline>hello\<newline># B\<newline>world\<newline>''"] by auto
qed

text \<open>
  Claim C3, as stated, fails: the line \<^verbatim>\<open>#A\<close> starts with \<^verbatim>\<open>#\<close> and is a heading line, but
  the pattern \<^verbatim>\<open>/^#+\s+/\<close> needs white space after the markers, so nothing is removed
  and the heading of the section is \<^verbatim>\<open>#A\<close>.
\<close>

theorem heading_keeps_marker_without_space:
  "findHeadingsAndContent (js ''#A\<newline>x'') = Inr [\<lparr>heading = js ''#A'', lineIndex = 0, content = js ''x''\<rparr>]"
  by code_simp

text \<open>
  Claim C3, amended: every section the segmenter returns belongs to a line of the input
  that starts with \<^verbatim>\<open>#\<close>, the line at its \<open>lineIndex\<close>. If white space follows the
  leading run of \<^verbatim>\<open>#\<close>, the heading is the line without that run and without the white
  space after it; otherwise the heading is the whole line, markers included.
\<close>

theorem heading_strips_marker_before_space:
  "\<exists>ss. findHeadingsAndContent markdown = Inr ss \<and>
     (\<forall>s \<in> set ss.
        let lines = split (\<lambda>c. c = NL) markdown;
            line = lines ! lineIndex s;
            rest = dropWhile (\<lambda>c. c = HASH) line
        in lineIndex s < length lines \<and> prefix [HASH] line \<and>
           heading s = (if rest \<noteq> [] \<and> isSpace (hd rest) then dropWhile isSpace rest else line))"
proof -
  from findHeadingsAndContent_anchored [of markdown] obtain ss where
    f: "findHeadingsAndContent markdown = Inr ss" and
    a: "anchored (split (\<lambda>c. c = NL) markdown) (length (split (\<lambda>c. c = NL) markdown)) ss"
    by blast
  have "\<forall>s \<in> set ss.
        let lines = split (\<lambda>c. c = NL) markdown;
            line = lines ! lineIndex s;
            rest = dropWhile (\<lambda>c. c = HASH) line
        in lineIndex s < length lines \<and> prefix [HASH] line \<and>
           heading s = (if rest \<noteq> [] \<and> isSpace (hd rest) then dropWhile isSpace rest else line)"
  proof
    fix s assume "s \<in> set ss"
    with a have 1: "lineIndex s < length (split (\<lambda>c. c = NL) markdown)"
      and 2: "prefix [HASH] (split (\<lambda>c. c = NL) markdown ! lineIndex s)"
      and 3: "heading s = stripHeadingMarker (split (\<lambda>c. c = NL) markdown ! lineIndex s)"
      by (auto simp: anchored_def)
    from 1 2 3 stripHeadingMarker_heading_line [OF 2]
    show "let lines = split (\<lambda>c. c = NL) markdown;
            line = lines ! lineIndex s;
            rest = dropWhile (\<lambda>c. c = HASH) line
        in lineIndex s < length lines \<and> prefix [HASH] line \<and>
           heading s = (if rest \<noteq> [] \<and> isSpace (hd rest) then dropWhile isSpace rest else line)"
      by (simp only: Let_def)
  qed
  with f show ?thesis by blast
qed

theorem heading_strips_marker_before_space_witness:
  "\<exists>ss. findHeadingsAndContent (js ''##  A b\<newline>x\<newline>#B\<newline>y'') = Inr ss \<and>
     map heading ss = [js ''A b'', js ''#B''] \<and>
     (\<forall>s \<in> set ss.
        let lines = split (\<lambda>c. c = NL) (js ''##  A b\<newline>x\<newline>#B\<newline>y'');
            line = lines ! lineIndex s;
            rest = dropWhile (\<lambda>c. c = HASH) line
        in lineIndex s < length lines \<and> prefix [HASH] line \<and>
           heading s = (if rest \<noteq> [] \<and> isSpace (hd rest) then dropWhile isSpace rest else line))"
proof -
  have "findHeadingsAndContent (js ''##  A b\<newline>x\<newline>#B\<newline>y'') =
          Inr [\<lparr>heading = js ''A b'', lineIndex = 0, content = js ''x''\<rparr>,
               \<lparr>heading = js ''#B'', lineIndex = 2, content = js ''y''\<rparr>]"
    by code_simp
  then show ?thesis
    using heading_strips_marker_before_space [of "js ''##  A b\<newline>x\<newline>#B\<newline>y''"] by auto
qed

subsection \<open>The classifier and code generator\<close>

lemma firstLine_partnership:
  "takeWhile (\<lambda>c. c \<noteq> NL) (partnershipDiagram content heading) = js ''graph LR''" for content heading
  by (simp add: partnershipDiagram_def js_def)

lemma firstLine_market:
  "takeWhile (\<lambda>c. c \<noteq> NL) (marketDiagram lc content heading) = js ''graph TD''" for content heading
  by (simp add: marketDiagram_def js_def)

lemma firstLine_comparison:
  "takeWhile (\<lambda>c. c \<noteq> NL) (comparisonDiagram content) = js ''graph TB''" for content
  by (simp add: comparisonDiagram_def Let_def js_def)

lemma firstLine_sequence:
  "takeWhile (\<lambda>c. c \<noteq> NL) (sequenceDiagram content) = js ''graph TD''" for content
  by (simp add: sequenceDiagram_def Let_def js_def)

lemma firstLine_mindmap:
  "takeWhile (\<lambda>c. c \<noteq> NL) (mindmapDiagram points heading) = js ''mindmap''" for heading
  by (simp add: mindmapDiagram_def js_def)

lemma firstLine_placeholder:
  "takeWhile (\<lambda>c. c \<noteq> NL) placeholderDiagram = js ''graph TD''"
  by (simp add: placeholderDiagram_def js_def)

text \<open>
  Claim C9: for every content and heading, whatever the case mapping does, the
  generated program is not empty and its first line is one of the four headers
  \<^verbatim>\<open>graph LR\<close>, \<^verbatim>\<open>graph TD\<close>, \<^verbatim>\<open>graph TB\<close> and \<^verbatim>\<open>mindmap\<close>.
\<close>

theorem diagram_header_one_of_four:
  "generateMermaidCode toLowerCase content heading \<noteq> [] \<and>
   takeWhile (\<lambda>c. c \<noteq> NL) (generateMermaidCode toLowerCase content heading)
     \<in> {js ''graph LR'', js ''graph TD'', js ''graph TB'', js ''mindmap''}" for content heading
proof -
  have "takeWhile (\<lambda>c. c \<noteq> NL) (generateMermaidCode toLowerCase content heading)
     \<in> {js ''graph LR'', js ''graph TD'', js ''graph TB'', js ''mindmap''}"
    unfolding generateMermaidCode_def
    by (simp only: firstLine_partnership firstLine_market firstLine_comparison
        firstLine_sequence firstLine_mindmap firstLine_placeholder if_distrib [of "takeWhile _"]
        insert_iff simp_thms if_cancel split: if_split)
  moreover have "[] \<notin> {js ''graph LR'', js ''graph TD'', js ''graph TB'', js ''mindmap''}"
    by (simp add: js_def)
  ultimately show ?thesis by (metis takeWhile.simps(1))
qed

theorem diagram_header_one_of_four_witness:
  "generateMermaidCode asciiLower (js ''We compared A versus B. B wins!'') (js ''Result'') \<noteq> [] \<and>
   takeWhile (\<lambda>c. c \<noteq> NL)
     (generateMermaidCode asciiLower (js ''We compared A versus B. B wins!'') (js ''Result''))
     = js ''graph TB''"
proof -
  have "takeWhile (\<lambda>c. c \<noteq> NL) (generateMermaidCode asciiLower (js ''We compared A versus B. B wins!'') (js ''Result''))
     = js ''graph TB''"
    by code_simp
  then show ?thesis
    using diagram_header_one_of_four [of asciiLower "js ''We compared A versus B. B wins!''" "js ''Result''"]
    by simp
qed


lemma sanitizeText_clean:
  assumes "set s \<inter> {DQ, 0x5B, 0x5D, 0x28, 0x29} = {}"
  shows "sanitizeText s = trim s"
proof -
  have clean: "\<forall>c \<in> set s. c \<noteq> DQ \<and> c \<noteq> 0x5B \<and> c \<noteq> 0x5D \<and> c \<noteq> 0x28 \<and> c \<noteq> 0x29"
    using assms by auto
  have m: "map (\<lambda>c. if c = DQ then SQ else c) s = s"
    using clean by (simp add: map_idI)
  have f1: "filter (\<lambda>c. c \<noteq> 0x5B \<and> c \<noteq> 0x5D) s = s"
    using clean by (simp add: filter_id_conv)
  have f2: "filter (\<lambda>c. c \<noteq> 0x28 \<and> c \<noteq> 0x29) s = s"
    using clean by (simp add: filter_id_conv)
  show ?thesis
    by (subst sanitizeText_def) (simp only: m f1 f2)
qed

lemma nodeText_long_clean:
  assumes len: "length point > 50"
    and clean: "set (take 50 point) \<inter> {DQ, 0x5B, 0x5D, 0x28, 0x29} = {}"
    and hd: "\<not> isSpace (hd point)"
  shows "nodeText point = take 50 point @ js ''...''"
proof -
  let ?t = "take 50 point @ js ''...''"
  have ne: "take 50 point \<noteq> []" using len by auto
  have "set (js ''...'') \<inter> {DQ, 0x5B, 0x5D, 0x28, 0x29} = {}" by (simp add: js_def)
  with clean have "set ?t \<inter> {DQ, 0x5B, 0x5D, 0x28, 0x29} = {}"
    by (simp only: set_append Int_Un_distrib2) simp
  then have "sanitizeText ?t = trim ?t" by (rule sanitizeText_clean)
  moreover have "hd ?t = hd point" using ne len by (simp add: hd_append hd_take)
  moreover have "\<not> isSpace (last ?t)" by (simp add: js_def isSpace_def)
  ultimately have "sanitizeText ?t = ?t"
    using hd trim_fixed [of ?t] by simp
  then show ?thesis using len by (simp add: nodeText_def)
qed

lemma nodeText_short_clean:
  assumes len: "length point \<le> 50"
    and clean: "set point \<inter> {DQ, 0x5B, 0x5D, 0x28, 0x29} = {}"
    and hd: "point = [] \<or> (\<not> isSpace (hd point) \<and> \<not> isSpace (last point))"
  shows "nodeText point = point"
proof -
  have "nodeText point = sanitizeText point" using len by (simp add: nodeText_def)
  also have "\<dots> = trim point" using clean by (rule sanitizeText_clean)
  also have "\<dots> = point" using hd by (rule trim_fixed)
  finally show ?thesis .
qed

text \<open>
  Claim C4, as stated, fails. The leaf is sanitized after it is cut, so a sentence of
  length 80 that starts with a parenthesis is rendered with 49 characters before the
  ellipsis, and a sentence of length 40 with parentheses is rendered without them.
\<close>

theorem mindmap_leaf_exceptions:
  "length (js ''(Plan'' @ replicate 75 0x61) = 80 \<and>
   generateMermaidCode asciiLower (js ''(Plan'' @ replicate 75 0x61) (js ''H'') =
     js ''mindmap'' @ [NL] @ js ''  root((H))'' @ [NL]
     @ js ''    Plan'' @ replicate 45 0x61 @ js ''...'' @ [NL] \<and>
   length (js ''(Plan) '' @ replicate 33 0x61) = 40 \<and>
   generateMermaidCode asciiLower (js ''(Plan) '' @ replicate 33 0x61) (js ''H'') =
     js ''mindmap'' @ [NL] @ js ''  root((H))'' @ [NL]
     @ js ''    Plan '' @ replicate 33 0x61 @ [NL]"
  by code_simp

text \<open>
  Claim C4, amended: in the default branch every sentence gives one leaf line, the
  sanitized cut. A sentence of length 80 is rendered as \<open>sanitizeText\<close> of its first 50
  code units followed by \<^verbatim>\<open>...\<close>; that is those 50 code units and the ellipsis, 53 code
  units in all, when they hold no double quote, bracket or parenthesis and the sentence
  does not start with white space. A sentence of length 40 is rendered as its sanitized
  text; it is unchanged when it holds none of those characters and neither starts nor
  ends with white space.
\<close>

theorem mindmap_leaf_truncation:
  fixes content heading :: jsstring
  assumes "\<not> containsKeywords toLowerCase content partnershipKeywords"
    and "\<not> containsKeywords toLowerCase content marketKeywords"
    and "\<not> containsKeywords toLowerCase content competitiveKeywords"
    and "\<not> containsKeywords toLowerCase content sequenceKeywords"
    and "point \<in> set (keyPoints content)"
  shows "generateMermaidCode toLowerCase content heading =
           js ''mindmap'' @ [NL] @ js ''  root(('' @ sanitizeText heading @ js ''))'' @ [NL]
           @ concat (map (\<lambda>p. js ''    '' @ nodeText p @ [NL]) (keyPoints content)) \<and>
         (length point = 80 \<longrightarrow> nodeText point = sanitizeText (take 50 point @ js ''...'')) \<and>
         (length point = 80 \<and> set (take 50 point) \<inter> {DQ, 0x5B, 0x5D, 0x28, 0x29} = {} \<and>
            \<not> isSpace (hd point) \<longrightarrow>
          nodeText point = take 50 point @ js ''...'' \<and> length (nodeText point) = 53) \<and>
         (length point = 40 \<longrightarrow> nodeText point = sanitizeText point) \<and>
         (length point = 40 \<and> set point \<inter> {DQ, 0x5B, 0x5D, 0x28, 0x29} = {} \<and>
            \<not> isSpace (hd point) \<and> \<not> isSpace (last point) \<longrightarrow>
          nodeText point = point)"
proof -
  from assms(5) have "length (keyPoints content) > 0" by (cases "keyPoints content") auto
  with assms(1-4) have 1: "generateMermaidCode toLowerCase content heading =
           js ''mindmap'' @ [NL] @ js ''  root(('' @ sanitizeText heading @ js ''))'' @ [NL]
           @ concat (map (\<lambda>p. js ''    '' @ nodeText p @ [NL]) (keyPoints content))"
    by (simp add: generateMermaidCode_def mindmapDiagram_def)
  have 2: "length point = 80 \<longrightarrow> nodeText point = sanitizeText (take 50 point @ js ''...'')"
    by (simp add: nodeText_def)
  have 3: "length point = 80 \<and> set (take 50 point) \<inter> {DQ, 0x5B, 0x5D, 0x28, 0x29} = {} \<and>
            \<not> isSpace (hd point) \<longrightarrow>
          nodeText point = take 50 point @ js ''...'' \<and> length (nodeText point) = 53"
  proof
    assume a: "length point = 80 \<and> set (take 50 point) \<inter> {DQ, 0x5B, 0x5D, 0x28, 0x29} = {} \<and>
            \<not> isSpace (hd point)"
    then have "nodeText point = take 50 point @ js ''...''"
      using nodeText_long_clean [of point] by simp
    moreover have "length (take 50 point @ js ''...'') = 53" using a by (simp add: js_def)
    ultimately show "nodeText point = take 50 point @ js ''...'' \<and> length (nodeText point) = 53"
      by simp
  qed
  have 4: "length point = 40 \<longrightarrow> nodeText point = sanitizeText point"
    by (simp add: nodeText_def)
  have 5: "length point = 40 \<and> set point \<inter> {DQ, 0x5B, 0x5D, 0x28, 0x29} = {} \<and>
            \<not> isSpace (hd point) \<and> \<not> isSpace (last point) \<longrightarrow>
          nodeText point = point"
    using nodeText_short_clean [of point] by simp
  from 1 2 3 4 5 show ?thesis by blast
qed

theorem mindmap_leaf_truncation_witness:
  "replicate 80 0x61 \<in> set (keyPoints (replicate 80 0x61 @ js ''.'' @ replicate 40 0x62)) \<and>
   replicate 40 0x62 \<in> set (keyPoints (replicate 80 0x61 @ js ''.'' @ replicate 40 0x62)) \<and>
   nodeText (replicate 80 0x61) = replicate 50 0x61 @ js ''...'' \<and>
   nodeText (replicate 40 0x62) = replicate 40 0x62 \<and>
   generateMermaidCode asciiLower (replicate 80 0x61 @ js ''.'' @ replicate 40 0x62) (js ''H'') =
     js ''mindmap'' @ [NL] @ js ''  root((H))'' @ [NL]
     @ js ''    '' @ replicate 50 0x61 @ js ''...'' @ [NL]
     @ js ''    '' @ replicate 40 0x62 @ [NL]"
proof -
  let ?W = "replicate 80 0x61 @ js ''.'' @ replicate 40 0x62 :: jsstring"
  have n1: "\<not> containsKeywords asciiLower ?W partnershipKeywords" by code_simp
  have n2: "\<not> containsKeywords asciiLower ?W marketKeywords" by code_simp
  have n3: "\<not> containsKeywords asciiLower ?W competitiveKeywords" by code_simp
  have n4: "\<not> containsKeywords asciiLower ?W sequenceKeywords" by code_simp
  have k: "keyPoints ?W = [replicate 80 0x61, replicate 40 0x62]" by code_simp
  have p1: "replicate 80 0x61 \<in> set (keyPoints ?W)" and p2: "replicate 40 0x62 \<in> set (keyPoints ?W)"
    by (simp_all only: k list.set insert_iff simp_thms)
  have h1: "length (replicate 80 (0x61::codeunit)) = 80 \<and>
            set (take 50 (replicate 80 (0x61::codeunit))) \<inter> {DQ, 0x5B, 0x5D, 0x28, 0x29} = {} \<and>
            \<not> isSpace (hd (replicate 80 0x61))"
    by (simp add: isSpace_def)
  have h2: "length (replicate 40 (0x62::codeunit)) = 40 \<and>
            set (replicate 40 (0x62::codeunit)) \<inter> {DQ, 0x5B, 0x5D, 0x28, 0x29} = {} \<and>
            \<not> isSpace (hd (replicate 40 0x62)) \<and> \<not> isSpace (last (replicate 40 0x62))"
    by (simp add: isSpace_def)
  from mindmap_leaf_truncation [OF n1 n2 n3 n4 p1, of "js ''H''"] h1
  have a: "nodeText (replicate 80 0x61) = take 50 (replicate 80 0x61) @ js ''...''"
    and g: "generateMermaidCode asciiLower ?W (js ''H'') =
           js ''mindmap'' @ [NL] @ js ''  root(('' @ sanitizeText (js ''H'') @ js ''))'' @ [NL]
           @ concat (map (\<lambda>p. js ''    '' @ nodeText p @ [NL]) (keyPoints ?W))"
    by blast+
  from mindmap_leaf_truncation [OF n1 n2 n3 n4 p2, of "js ''H''"] h2
  have b: "nodeText (replicate 40 0x62) = replicate 40 0x62"
    by blast
  have s: "sanitizeText (js ''H'') = js ''H''" by code_simp
  have a': "nodeText (replicate 80 0x61) = replicate 50 0x61 @ js ''...''"
    using a by simp
  have "generateMermaidCode asciiLower ?W (js ''H'') =
     js ''mindmap'' @ [NL] @ js ''  root((H))'' @ [NL]
     @ js ''    '' @ replicate 50 0x61 @ js ''...'' @ [NL]
     @ js ''    '' @ replicate 40 0x62 @ [NL]"
    unfolding g k s by (simp add: a' b js_def)
  with p1 p2 a' b show ?thesis by blast
qed

text \<open>
  Claim C5: content that contains, under the case mapping, both a partnership keyword and
  a market keyword gets the partnership diagram: the program starts with \<^verbatim>\<open>graph LR\<close> and
  the root node of the sanitized heading, and it is not the market diagram. The keyword
  checks are made in the fixed order partnership, market, competitive, sequence, and the
  first that holds decides; the mind map or the placeholder is left for the rest.
\<close>

theorem partnership_first_match_wins:
  fixes content heading :: jsstring
  shows "(containsKeywords toLowerCase content partnershipKeywords \<and>
          containsKeywords toLowerCase content marketKeywords \<longrightarrow>
            generateMermaidCode toLowerCase content heading = partnershipDiagram content heading \<and>
            prefix (js ''graph LR'' @ [NL] @ js ''    A(('' @ [DQ] @ sanitizeText heading @ [DQ] @ js ''))'' @ [NL])
              (generateMermaidCode toLowerCase content heading) \<and>
            generateMermaidCode toLowerCase content heading \<noteq> marketDiagram toLowerCase content heading) \<and>
         generateMermaidCode toLowerCase content heading =
           (if containsKeywords toLowerCase content partnershipKeywords then
              partnershipDiagram content heading
            else if containsKeywords toLowerCase content marketKeywords then
              marketDiagram toLowerCase content heading
            else if containsKeywords toLowerCase content competitiveKeywords then
              comparisonDiagram content
            else if containsKeywords toLowerCase content sequenceKeywords then
              sequenceDiagram content
            else if keyPoints content \<noteq> [] then mindmapDiagram (keyPoints content) heading
            else placeholderDiagram)"
proof -
  have p: "prefix (js ''graph LR'' @ [NL] @ js ''    A(('' @ [DQ] @ sanitizeText heading @ [DQ] @ js ''))'' @ [NL])
             (partnershipDiagram content heading)"
    by (simp add: partnershipDiagram_def)
  have "takeWhile (\<lambda>c. c \<noteq> NL) (partnershipDiagram content heading)
          \<noteq> takeWhile (\<lambda>c. c \<noteq> NL) (marketDiagram toLowerCase content heading)"
    by (simp only: firstLine_partnership firstLine_market) (simp add: js_def)
  then have d: "partnershipDiagram content heading \<noteq> marketDiagram toLowerCase content heading"
    by auto
  show ?thesis
    using p d by (simp add: generateMermaidCode_def)
qed

theorem partnership_first_match_wins_witness:
  "containsKeywords asciiLower (js ''The trade Agreement opens a new market; both gain.'') partnershipKeywords \<and>
   containsKeywords asciiLower (js ''The trade Agreement opens a new market; both gain.'') marketKeywords \<and>
   generateMermaidCode asciiLower (js ''The trade Agreement opens a new market; both gain.'') (js ''Deal'') =
     partnershipDiagram (js ''The trade Agreement opens a new market; both gain.'') (js ''Deal'') \<and>
   prefix (js ''graph LR'' @ [NL] @ js ''    A(('' @ [DQ] @ js ''Deal'' @ [DQ] @ js ''))'' @ [NL])
     (generateMermaidCode asciiLower (js ''The trade Agreement opens a new market; both gain.'') (js ''Deal''))"
proof -
  let ?W = "js ''The trade Agreement opens a new market; both gain.''"
  have k1: "containsKeywords asciiLower ?W partnershipKeywords" by code_simp
  have k2: "containsKeywords asciiLower ?W marketKeywords" by code_simp
  have s: "sanitizeText (js ''Deal'') = js ''Deal''" by code_simp
  from partnership_first_match_wins [of asciiLower ?W "js ''Deal''"] k1 k2
  have "generateMermaidCode asciiLower ?W (js ''Deal'') = partnershipDiagram ?W (js ''Deal'')"
    and "prefix (js ''graph LR'' @ [NL] @ js ''    A(('' @ [DQ] @ sanitizeText (js ''Deal'') @ [DQ] @ js ''))'' @ [NL])
     (generateMermaidCode asciiLower ?W (js ''Deal''))"
    by blast+
  with k1 k2 show ?thesis unfolding s by blast
qed

text \<open>
  Claim C2, as stated, fails: \<^verbatim>\<open>expansion\<close> selects the market branch, but that branch
  keeps only sentences with one of \<^verbatim>\<open>growth, opportunity, potential, market\<close>. It
  extracts nothing here and returns its root node alone, not the placeholder.
\<close>

theorem market_branch_without_placeholder:
  "containsKeywords asciiLower (js ''expansion'') marketKeywords \<and>
   \<not> containsKeywords asciiLower (js ''expansion'') partnershipKeywords \<and>
   marketOpportunities asciiLower (js ''expansion'') = [] \<and>
   generateMermaidCode asciiLower (js ''expansion'') (js ''H'') =
     js ''graph TD'' @ [NL] @ js ''    M(('' @ [DQ] @ js ''H'' @ [DQ] @ js ''))'' @ [NL]
     @ js ''    style M fill:#7b1fa2,stroke:#4a148c,color:#fff'' @ [NL] \<and>
   generateMermaidCode asciiLower (js ''expansion'') (js ''H'') \<noteq>
     js ''graph TD'' @ [NL] @ js ''    A['' @ [DQ] @ js ''No content to visualize'' @ [DQ] @ js '']''"
  by code_simp

text \<open>
  Claim C2, amended: when no keyword check holds and the content has no non-blank
  sentence, the result is the placeholder program reading \<^verbatim>\<open>No content to visualize\<close>.
  When the market branch is selected and extracts no sentence, the result is the
  \<^verbatim>\<open>graph TD\<close> program of the root node \<open>M\<close> with the sanitized heading and its style
  line.
\<close>

theorem placeholder_only_by_default:
  fixes content heading :: jsstring
  shows "(\<not> containsKeywords toLowerCase content partnershipKeywords \<and>
          \<not> containsKeywords toLowerCase content marketKeywords \<and>
          \<not> containsKeywords toLowerCase content competitiveKeywords \<and>
          \<not> containsKeywords toLowerCase content sequenceKeywords \<and>
          keyPoints content = [] \<longrightarrow>
            generateMermaidCode toLowerCase content heading =
              js ''graph TD'' @ [NL] @ js ''    A['' @ [DQ] @ js ''No content to visualize'' @ [DQ] @ js '']'') \<and>
         (\<not> containsKeywords toLowerCase content partnershipKeywords \<and>
          containsKeywords toLowerCase content marketKeywords \<and>
          marketOpportunities toLowerCase content = [] \<longrightarrow>
            generateMermaidCode toLowerCase content heading =
              js ''graph TD'' @ [NL] @ js ''    M(('' @ [DQ] @ sanitizeText heading @ [DQ] @ js ''))'' @ [NL]
              @ js ''    style M fill:#7b1fa2,stroke:#4a148c,color:#fff'' @ [NL])"
  by (simp add: generateMermaidCode_def placeholderDiagram_def marketDiagram_def)

theorem placeholder_only_by_default_witness:
  "keyPoints (js '' ... '') = [] \<and>
   generateMermaidCode asciiLower (js '' ... '') (js ''Plan'') =
     js ''graph TD'' @ [NL] @ js ''    A['' @ [DQ] @ js ''No content to visualize'' @ [DQ] @ js '']'' \<and>
   marketOpportunities asciiLower (js ''Rapid expansion!'') = [] \<and>
   generateMermaidCode asciiLower (js ''Rapid expansion!'') (js ''Plan'') =
     js ''graph TD'' @ [NL] @ js ''    M(('' @ [DQ] @ js ''Plan'' @ [DQ] @ js ''))'' @ [NL]
     @ js ''    style M fill:#7b1fa2,stroke:#4a148c,color:#fff'' @ [NL]"
proof -
  have a: "\<not> containsKeywords asciiLower (js '' ... '') partnershipKeywords \<and>
          \<not> containsKeywords asciiLower (js '' ... '') marketKeywords \<and>
          \<not> containsKeywords asciiLower (js '' ... '') competitiveKeywords \<and>
          \<not> containsKeywords asciiLower (js '' ... '') sequenceKeywords \<and>
          keyPoints (js '' ... '') = []"
    by code_simp
  have b: "\<not> containsKeywords asciiLower (js ''Rapid expansion!'') partnershipKeywords \<and>
          containsKeywords asciiLower (js ''Rapid expansion!'') marketKeywords \<and>
          marketOpportunities asciiLower (js ''Rapid expansion!'') = []"
    by code_simp
  have s: "sanitizeText (js ''Plan'') = js ''Plan''" by code_simp
  from placeholder_only_by_default [of asciiLower "js '' ... ''" "js ''Plan''"] a
  have 1: "generateMermaidCode asciiLower (js '' ... '') (js ''Plan'') =
     js ''graph TD'' @ [NL] @ js ''    A['' @ [DQ] @ js ''No content to visualize'' @ [DQ] @ js '']''"
    by blast
  from placeholder_only_by_default [of asciiLower "js ''Rapid expansion!''" "js ''Plan''"] b
  have 2: "generateMermaidCode asciiLower (js ''Rapid expansion!'') (js ''Plan'') =
     js ''graph TD'' @ [NL] @ js ''    M(('' @ [DQ] @ sanitizeText (js ''Plan'') @ [DQ] @ js ''))'' @ [NL]
     @ js ''    style M fill:#7b1fa2,stroke:#4a148c,color:#fff'' @ [NL]"
    by blast
  from a b 1 2 show ?thesis unfolding s by blast
qed

subsection \<open>Title inference\<close>

text \<open>
  Claim C8: the title is the trimmed text of the first line that is a single \<^verbatim>\<open>#\<close>,
  white space and text, else the trimmed first line (cut to 47 characters and an ellipsis
  beyond 50), else a default. The code does not do this for a document that starts with
  a bare \<^verbatim>\<open>#\<close> line: no line has the form, and the first line is \<^verbatim>\<open>#\<close>, but \<^verbatim>\<open>\s+\<close> matches
  the line break, so the text of the next line is returned as if it were the heading.
\<close>

theorem title_from_line_after_bare_marker:
  "generateTitleFromContent (js ''#\<newline>foo'') = Inr (js ''foo'')"
  by code_simp

subsection \<open>Persistence\<close>

text \<open>
  Claim C10: the document that \<open>saveReport\<close> adds to the \<^verbatim>\<open>reports\<close> collection has
  \<open>createdAt\<close> and \<open>updatedAt\<close> set to the two clock readings taken during the save,
  every other property is the one of the given report, and what the caller supplied for
  the two timestamps has no effect on the result.
\<close>

theorem saveReport_overwrites_timestamps:
  "saveReport now1 now2 report db ''reports'' =
     db ''reports'' @ [report(''createdAt'' \<mapsto> Date now1, ''updatedAt'' \<mapsto> Date now2)] \<and>
   (let doc = last (saveReport now1 now2 report db ''reports'') in
      doc ''createdAt'' = Some (Date now1) \<and> doc ''updatedAt'' = Some (Date now2) \<and>
      (\<forall>k. k \<noteq> ''createdAt'' \<and> k \<noteq> ''updatedAt'' \<longrightarrow> doc k = report k)) \<and>
   saveReport now1 now2 (report(''createdAt'' \<mapsto> c, ''updatedAt'' \<mapsto> u)) db =
     saveReport now1 now2 report db"
  by (simp add: saveReport_def addDoc_def reportDocument_def Let_def)

theorem saveReport_overwrites_timestamps_witness:
  "(let doc = last (saveReport 1000 1001
                [''userId'' \<mapsto> Str (js ''u1''), ''title'' \<mapsto> Str (js ''T''),
                 ''content'' \<mapsto> Str (js ''# A''), ''animations'' \<mapsto> Sections [],
                 ''createdAt'' \<mapsto> Date 5, ''updatedAt'' \<mapsto> Date 6]
                (\<lambda>_. []) ''reports'')
    in doc ''createdAt'' = Some (Date 1000) \<and> doc ''updatedAt'' = Some (Date 1001) \<and>
       doc ''userId'' = Some (Str (js ''u1'')) \<and> doc ''title'' = Some (Str (js ''T'')) \<and>
       doc ''content'' = Some (Str (js ''# A'')) \<and> doc ''animations'' = Some (Sections []))"
  using saveReport_overwrites_timestamps [of 1000 1001
          "[''userId'' \<mapsto> Str (js ''u1''), ''title'' \<mapsto> Str (js ''T''),
            ''content'' \<mapsto> Str (js ''# A''), ''animations'' \<mapsto> Sections [],
            ''createdAt'' \<mapsto> Date 5, ''updatedAt'' \<mapsto> Date 6]" "\<lambda>_. []"]
  by (simp add: Let_def)

subsection \<open>The scenarios of the specification\<close>

text \<open>The worked examples of the specification, evaluated on the model.\<close>

lemma scenario_basic_segmentation:
  "findHeadingsAndContent (js ''# A\<newline>hello\<newline># B\<newline>world\<newline>'') =
     Inr [\<lparr>heading = js ''A'', lineIndex = 0, content = js ''hello''\<rparr>,
          \<lparr>heading = js ''B'', lineIndex = 2, content = js ''world''\<rparr>]"
  by code_simp

lemma scenario_empty_section_elision:
  "findHeadingsAndContent (js ''# A\<newline># B\<newline>text'') =
     Inr [\<lparr>heading = js ''B'', lineIndex = 1, content = js ''text''\<rparr>]"
  by code_simp

lemma scenario_fallback_diagram:
  "generateMermaidCode asciiLower (js ''random unrelated sentence with no keywords.'') (js ''Notes'') =
     js ''mindmap'' @ [NL] @ js ''  root((Notes))'' @ [NL]
     @ js ''    random unrelated sentence with no keywords'' @ [NL]"
  by code_simp

lemma scenario_title_inference:
  "generateTitleFromContent (js ''# Quarterly Report\<newline>body'') = Inr (js ''Quarterly Report'') \<and>
   generateTitleFromContent (js ''Summary of findings for Q3'') = Inr (js ''Summary of findings for Q3'') \<and>
   generateTitleFromContent [] = Inr (js ''Untitled Report'')"
  by code_simp

end
